theory Spec2Isabelle
  imports Main "HOL-Library.AList"
begin

section \<open>Cell states\<close>

text \<open>
  The source has four classes \<open>Void\<close>, \<open>Wire\<close>, \<open>ElecHead\<close> and \<open>ElecTail\<close>, each used
  as its own single instance; the spec calls them Empty, Conductor, ElectronHead and
  ElectronTail. The only exception the modelled code raises is the \<open>ValueError\<close> of
  Python's \<open>max\<close> on an empty sequence. \<open>EmptyGridError\<close> is the error class the
  spec names for an empty grid: the source neither defines nor raises it, and it is a
  value of \<open>error\<close> only so that a statement can tell the two apart.
\<close>

datatype State = Void | Wire | ElecHead | ElecTail

datatype error = ValueError | EmptyGridError

text \<open>
  A Python \<open>str\<close> is a sequence of Unicode code points; FULL BLOCK (U+2588) and MEDIUM
  SHADE (U+2592) do not fit a byte, so a string is a list of code points here.
\<close>

type_synonym pystr = "nat list"

definition CHAR_VOID :: pystr where
  "CHAR_VOID = [32]"

definition CHAR_WIRE :: pystr where
  "CHAR_WIRE = [9608]"

definition CHAR_HEAD :: pystr where
  "CHAR_HEAD = [9618]"

definition CHAR_TAIL :: pystr where
  "CHAR_TAIL = CHAR_WIRE"

definition CHARS_VOID :: pystr where
  "CHARS_VOID = CHAR_VOID @ [32, 160]"

definition CHARS_WIRE :: pystr where
  "CHARS_WIRE = CHAR_WIRE @ [35, 64, 37]"

definition CHARS_HEAD :: pystr where
  "CHARS_HEAD = CHAR_HEAD @ [43, 63, 41, 62]"

definition CHARS_TAIL :: pystr where
  "CHARS_TAIL = CHAR_TAIL @ [45, 46, 40, 60]"

section \<open>Dictionaries\<close>

text \<open>
  A Python dictionary keeps its keys in insertion order: it is an association list whose
  keys are distinct. Storing under a key that is present replaces the value in place,
  storing under a new key appends (\<open>AList.update\<close>). A dictionary display or
  comprehension stores its pairs from left to right.
\<close>

type_synonym ('k, 'v) dict = "('k \<times> 'v) list"

definition dict_of :: "('k \<times> 'v) list \<Rightarrow> ('k, 'v) dict" where
  "dict_of kvs = foldl (\<lambda>d (k, v). AList.update k v d) [] kvs"

definition keys :: "('k, 'v) dict \<Rightarrow> 'k list" where
  "keys d = map fst d"

text \<open>Python's \<open>max\<close> over the values an iterable yields.\<close>

fun py_max :: "int list \<Rightarrow> error + int" where
  "py_max [] = Inl ValueError"
| "py_max (x # xs) = Inr (fold max xs x)"

section \<open>The world\<close>

text \<open>
  \<open>World\<close> is a \<open>defaultdict\<close> from coordinates to states with the attribute
  \<open>maxcoords\<close>, set once by the constructor. Every world the source builds has the
  default factory \<open>lambda: Void\<close>: reading a coordinate that is not stored returns
  \<open>Void\<close> and stores it. A world is a mutable object, so each operation that reads it
  takes the world and returns it as it is afterwards.
\<close>

type_synonym coords = "int \<times> int"

record World =
  items :: "(coords, State) dict"
  maxcoords :: coords

text \<open>
  What an iterable yields when it is consumed, and the store as the consumption leaves
  it. A generator over a world does nothing until it is consumed.
\<close>

type_synonym ('s, 'a) iterable = "'s \<Rightarrow> 'a list \<times> 's"

text \<open>The argument of the constructor: a table (a tuple of tuples) or a defaultdict.\<close>

datatype table = Table "State list list" | DefaultDict "(coords, State) dict"

definition World_tabletodict :: "State list list \<Rightarrow> (coords, State) dict" where
  "World_tabletodict table =
     dict_of (concat (map (\<lambda>x. map (\<lambda>y. ((int x, int y), table ! x ! y))
                                   [0..<length (table ! x)])
                          [0..<length table]))"

text \<open>
  \<open>__maxcoords\<close> reads only the keys; the constructor calls it on the entries it has
  just stored, before the attribute \<open>maxcoords\<close> exists.
\<close>

definition World_maxcoords :: "(coords, State) dict \<Rightarrow> error + coords" where
  "World_maxcoords world =
     (case py_max (map (\<lambda>(x, _). x) (keys world)) of
        Inl e \<Rightarrow> Inl e
      | Inr maxx \<Rightarrow>
          (case py_max (map (\<lambda>(_, y). y) (keys world)) of
             Inl e \<Rightarrow> Inl e
           | Inr maxy \<Rightarrow> Inr (maxx, maxy)))"

definition World_init :: "table \<Rightarrow> error + World" where
  "World_init table =
     (let d = (case table of DefaultDict d \<Rightarrow> d | Table t \<Rightarrow> World_tabletodict t)
      in case World_maxcoords d of
           Inl e \<Rightarrow> Inl e
         | Inr mc \<Rightarrow> Inr \<lparr>items = d, maxcoords = mc\<rparr>)"

text \<open>\<open>world[k]\<close>: the stored state, or \<open>Void\<close>, which is then stored under \<open>k\<close>.\<close>

definition World_getitem :: "coords \<Rightarrow> World \<Rightarrow> State \<times> World" where
  "World_getitem k world =
     (case map_of (items world) k of
        Some state \<Rightarrow> (state, world)
      | None \<Rightarrow> (Void, world\<lparr>items := items world @ [(k, Void)]\<rparr>))"

fun getitems :: "coords list \<Rightarrow> World \<Rightarrow> State list \<times> World" where
  "getitems [] world = ([], world)"
| "getitems (k # ks) world =
     (let (state, world1) = World_getitem k world;
          (states, world2) = getitems ks world1
      in (state # states, world2))"

text \<open>\<open>product((-1, 0, 1), repeat=2)\<close> without \<open>(0, 0)\<close>, in the order it is yielded.\<close>

definition offsets :: "(int \<times> int) list" where
  "offsets = filter (\<lambda>(i, j). j \<noteq> 0 \<or> i \<noteq> 0) (List.product [-1, 0, 1] [-1, 0, 1])"

definition World_neighbors :: "coords \<Rightarrow> (World, State) iterable" where
  "World_neighbors center world =
     (case center of (x, y) \<Rightarrow> getitems (map (\<lambda>(i, j). (x + i, y + j)) offsets) world)"

text \<open>
  \<open>next_state\<close> of the four classes. Only \<open>Wire\<close> consumes the iterable it is given;
  the other three return without touching it.
\<close>

fun next_state :: "State \<Rightarrow> ('s, State) iterable \<Rightarrow> 's \<Rightarrow> State \<times> 's" where
  "next_state Void neighbors s = (Void, s)"
| "next_state Wire neighbors s =
     (let (ns, s') = neighbors s
      in (if count_list (map (\<lambda>n. n = ElecHead) ns) True \<in> {1, 2} then ElecHead else Wire, s'))"
| "next_state ElecHead neighbors s = (ElecTail, s)"
| "next_state ElecTail neighbors s = (Wire, s)"

text \<open>
  The comprehension of \<open>World.next\<close> over the snapshot \<open>tuple(world.items())\<close>: the
  pairs of the new dictionary, and the world as the reads leave it.
\<close>

fun next_items :: "(coords \<times> State) list \<Rightarrow> World \<Rightarrow> (coords \<times> State) list \<times> World" where
  "next_items [] world = ([], world)"
| "next_items ((coords, state) # rest) world =
     (let (state', world1) = next_state state (World_neighbors coords) world;
          (kvs, world2) = next_items rest world1
      in ((coords, state') # kvs, world2))"

text \<open>\<open>World.next\<close>: the new world (or the constructor's exception) and the old world.\<close>

definition World_next :: "World \<Rightarrow> (error + World) \<times> World" where
  "World_next world =
     (let (kvs, world') = next_items (items world) world
      in (World_init (DefaultDict (dict_of kvs)), world'))"

text \<open>
  \<open>World.__iter__\<close>: the coordinates \<open>product(range(maxx+1), range(maxy+1))\<close>, each
  read with \<open>world[x, y]\<close> when the generator reaches it. \<open>World_iter\<close> consumes the
  generator to its end.
\<close>

definition iter_coords :: "World \<Rightarrow> coords list" where
  "iter_coords world = (case maxcoords world of (maxx, maxy) \<Rightarrow> List.product [0..maxx] [0..maxy])"

fun iter_items :: "coords list \<Rightarrow> World \<Rightarrow> (coords \<times> State) list \<times> World" where
  "iter_items [] world = ([], world)"
| "iter_items (c # cs) world =
     (let (state, world1) = World_getitem c world;
          (rest, world2) = iter_items cs world1
      in ((c, state) # rest, world2))"

definition World_iter :: "(World, coords \<times> State) iterable" where
  "World_iter world = iter_items (iter_coords world) world"

text \<open>
  \<open>World.have_current\<close>: \<open>any\<close> stops consuming the generator at the first
  \<open>ElecHead\<close>.
\<close>

fun any_ElecHead :: "coords list \<Rightarrow> World \<Rightarrow> bool \<times> World" where
  "any_ElecHead [] world = (False, world)"
| "any_ElecHead (c # cs) world =
     (let (state, world1) = World_getitem c world
      in if state = ElecHead then (True, world1) else any_ElecHead cs world1)"

definition World_have_current :: "World \<Rightarrow> bool \<times> World" where
  "World_have_current world = any_ElecHead (iter_coords world) world"

text \<open>
  \<open>World.read\<close>, from the lines of the file. \<open>wireclass\<close> is built by a dictionary
  comprehension over the four (class, letters) pairs in the source's order, so a letter
  listed twice keeps the class of its last listing.
\<close>

definition wireclass :: "(nat, State) dict" where
  "wireclass =
     dict_of (concat (map (\<lambda>(cls, letters). map (\<lambda>letter. (letter, cls)) letters)
                          [(Wire, CHARS_WIRE), (Void, CHARS_VOID),
                           (ElecHead, CHARS_HEAD), (ElecTail, CHARS_TAIL)]))"

definition World_read :: "pystr list \<Rightarrow> error + World" where
  "World_read fd =
     World_init (Table (map (\<lambda>line. List.map_filter (map_of wireclass) line) fd))"

text \<open>
  The state of a coordinate as a read sees it, without the store that the read adds:
  the stored state, and \<open>Void\<close> where none is stored.
\<close>

definition state_at :: "World \<Rightarrow> coords \<Rightarrow> State" where
  "state_at world k = (case map_of (items world) k of Some state \<Rightarrow> state | None \<Rightarrow> Void)"

section \<open>Properties of the reads\<close>

text \<open>
  \<open>grown_by_Void world world'\<close>: \<open>world'\<close> is \<open>world\<close> with further entries stored
  behind the old ones, all of them \<open>Void\<close>, and the same \<open>maxcoords\<close>.
\<close>

definition grown_by_Void :: "World \<Rightarrow> World \<Rightarrow> bool" where
  "grown_by_Void world world' \<longleftrightarrow>
     take (length (items world)) (items world') = items world \<and>
     (\<forall>kv \<in> set (drop (length (items world)) (items world')). snd kv = Void) \<and>
     maxcoords world' = maxcoords world"

text \<open>Worlds the statements below are evaluated on.\<close>

definition strip_world :: World where
  "strip_world =
     \<lparr>items = [((0, 0), Wire), ((0, 1), ElecHead), ((0, 2), ElecTail)], maxcoords = (0, 2)\<rparr>"

definition ragged_world :: World where
  "ragged_world =
     \<lparr>items = [((0, 0), Wire), ((1, 0), Wire), ((1, 1), Wire)], maxcoords = (1, 1)\<rparr>"

definition square_world :: World where
  "square_world =
     \<lparr>items = [((0, 0), ElecHead), ((0, 1), Wire), ((1, 0), Wire), ((1, 1), ElecTail)],
      maxcoords = (1, 1)\<rparr>"

definition lit_world :: World where
  "lit_world =
     \<lparr>items = [((0, 0), ElecHead), ((1, 0), Wire), ((1, 1), Wire)], maxcoords = (1, 1)\<rparr>"

definition offgrid_world :: World where
  "offgrid_world = \<lparr>items = [((-1, 0), ElecHead)], maxcoords = (-1, 0)\<rparr>"

section \<open>Auxiliary facts\<close>

lemma count_list_map_eq: "count_list (map (\<lambda>n. n = h) ns) True = count_list ns h"
  by (induction ns) auto

lemma grown_by_Void_iff:
  "grown_by_Void w w' \<longleftrightarrow>
     (\<exists>ext. items w' = items w @ ext \<and> (\<forall>kv \<in> set ext. snd kv = Void)) \<and> maxcoords w' = maxcoords w"
proof -
  have "(take (length (items w)) (items w') = items w \<and>
         (\<forall>kv \<in> set (drop (length (items w)) (items w')). snd kv = Void))
        \<longleftrightarrow> (\<exists>ext. items w' = items w @ ext \<and> (\<forall>kv \<in> set ext. snd kv = Void))"
  proof
    assume h: "take (length (items w)) (items w') = items w \<and>
         (\<forall>kv \<in> set (drop (length (items w)) (items w')). snd kv = Void)"
    have "items w' = take (length (items w)) (items w') @ drop (length (items w)) (items w')"
      by simp
    with h have "items w' = items w @ drop (length (items w)) (items w')" by simp
    with h show "\<exists>ext. items w' = items w @ ext \<and> (\<forall>kv \<in> set ext. snd kv = Void)" by blast
  next
    assume "\<exists>ext. items w' = items w @ ext \<and> (\<forall>kv \<in> set ext. snd kv = Void)"
    then show "take (length (items w)) (items w') = items w \<and>
         (\<forall>kv \<in> set (drop (length (items w)) (items w')). snd kv = Void)" by auto
  qed
  then show ?thesis unfolding grown_by_Void_def by blast
qed

lemma grown_by_Void_refl: "grown_by_Void w w"
  by (simp add: grown_by_Void_def)

lemma grown_by_Void_trans:
  assumes "grown_by_Void w1 w2" and "grown_by_Void w2 w3"
  shows "grown_by_Void w1 w3"
proof -
  from assms(1) obtain e1 where e1: "items w2 = items w1 @ e1" "\<forall>kv \<in> set e1. snd kv = Void"
    and m1: "maxcoords w2 = maxcoords w1"
    unfolding grown_by_Void_iff by blast
  from assms(2) obtain e2 where e2: "items w3 = items w2 @ e2" "\<forall>kv \<in> set e2. snd kv = Void"
    and m2: "maxcoords w3 = maxcoords w2"
    unfolding grown_by_Void_iff by blast
  have "items w3 = items w1 @ (e1 @ e2)" using e1 e2 by simp
  moreover have "\<forall>kv \<in> set (e1 @ e2). snd kv = Void" using e1 e2 by auto
  ultimately show ?thesis unfolding grown_by_Void_iff using m1 m2 by metis
qed

lemma grown_by_Void_state_at:
  assumes "grown_by_Void w w'"
  shows "state_at w' = state_at w"
proof
  fix k
  from assms obtain ext where e: "items w' = items w @ ext" "\<forall>kv \<in> set ext. snd kv = Void"
    unfolding grown_by_Void_iff by blast
  show "state_at w' k = state_at w k"
  proof (cases "map_of (items w) k")
    case (Some s)
    then show ?thesis by (simp add: state_at_def e(1) map_add_def)
  next
    case None
    have "map_of ext k = None \<or> map_of ext k = Some Void"
    proof (cases "map_of ext k")
      case (Some v)
      then have "(k, v) \<in> set ext" by (rule map_of_SomeD)
      with e(2) have "v = Void" by auto
      with Some show ?thesis by simp
    qed simp
    with None show ?thesis by (auto simp: state_at_def e(1) map_add_def)
  qed
qed

lemma getitem_fst: "fst (World_getitem k w) = state_at w k"
  by (simp add: World_getitem_def state_at_def split: option.splits)

lemma getitem_grown: "grown_by_Void w (snd (World_getitem k w))"
  by (simp add: World_getitem_def grown_by_Void_def split: option.splits)

lemma getitems_grown: "grown_by_Void w (snd (getitems ks w))"
proof (induction ks arbitrary: w)
  case Nil
  show ?case by (simp add: grown_by_Void_refl)
next
  case (Cons k ks)
  have "grown_by_Void w (snd (getitems ks (snd (World_getitem k w))))"
    using getitem_grown Cons.IH by (rule grown_by_Void_trans)
  then show ?case by (simp add: split_beta)
qed

lemma getitems_fst: "fst (getitems ks w) = map (state_at w) ks"
proof (induction ks arbitrary: w)
  case Nil
  show ?case by simp
next
  case (Cons k ks)
  have "state_at (snd (World_getitem k w)) = state_at w"
    using getitem_grown by (rule grown_by_Void_state_at)
  with Cons.IH [of "snd (World_getitem k w)"] show ?case
    by (simp add: split_beta getitem_fst)
qed

lemma neighbors_fst:
  "fst (World_neighbors (x, y) w) = map (\<lambda>(i, j). state_at w (x + i, y + j)) offsets"
  by (simp add: World_neighbors_def getitems_fst comp_def split_beta)

lemma neighbors_grown: "grown_by_Void w (snd (World_neighbors c w))"
  by (cases c) (simp add: World_neighbors_def getitems_grown)

lemma offsets_eq:
  "offsets = [(-1, -1), (-1, 0), (-1, 1), (0, -1), (0, 1), (1, -1), (1, 0), (1, 1)]"
  by (simp add: offsets_def)

lemma next_state_grown: "grown_by_Void w (snd (next_state s (World_neighbors c) w))"
  by (cases s) (simp_all add: grown_by_Void_refl neighbors_grown split_beta)

lemma next_state_fst_cong:
  assumes "state_at w1 = state_at w"
  shows "fst (next_state s (World_neighbors c) w1) = fst (next_state s (World_neighbors c) w)"
proof -
  obtain x y where c: "c = (x, y)" by (cases c)
  have "fst (World_neighbors c w1) = fst (World_neighbors c w)"
    unfolding c neighbors_fst assms ..
  then show ?thesis by (cases s) (simp_all add: split_beta)
qed

lemma next_items_grown: "grown_by_Void w (snd (next_items kvs w))"
proof (induction kvs arbitrary: w)
  case Nil
  show ?case by (simp add: grown_by_Void_refl)
next
  case (Cons kv kvs)
  obtain c s where kv: "kv = (c, s)" by (cases kv)
  have "grown_by_Void w (snd (next_items kvs (snd (next_state s (World_neighbors c) w))))"
    using next_state_grown Cons.IH by (rule grown_by_Void_trans)
  then show ?case by (simp add: kv split_beta)
qed

lemma next_items_fst:
  assumes "state_at w1 = state_at w"
  shows "fst (next_items kvs w1) =
         map (\<lambda>(c, s). (c, fst (next_state s (World_neighbors c) w))) kvs"
  using assms
proof (induction kvs arbitrary: w1)
  case Nil
  show ?case by simp
next
  case (Cons kv kvs)
  obtain c s where kv: "kv = (c, s)" by (cases kv)
  let ?w2 = "snd (next_state s (World_neighbors c) w1)"
  have "state_at ?w2 = state_at w1"
    using next_state_grown by (rule grown_by_Void_state_at)
  with Cons.prems have "state_at ?w2 = state_at w" by simp
  then have "fst (next_items kvs ?w2) =
      map (\<lambda>(c, s). (c, fst (next_state s (World_neighbors c) w))) kvs"
    by (rule Cons.IH)
  moreover have "fst (next_state s (World_neighbors c) w1) = fst (next_state s (World_neighbors c) w)"
    using Cons.prems by (rule next_state_fst_cong)
  ultimately show ?case by (simp add: kv split_beta)
qed

lemma foldl_update_distinct:
  "distinct (map fst (acc @ kvs)) \<Longrightarrow>
   foldl (\<lambda>d (k, v). AList.update k v d) acc kvs = acc @ kvs"
proof (induction kvs arbitrary: acc)
  case Nil
  show ?case by simp
next
  case (Cons kv kvs)
  obtain k v where kv: "kv = (k, v)" by (cases kv)
  have notin: "k \<notin> fst ` set acc" using Cons.prems by (auto simp: kv)
  have upd: "AList.update k v acc = acc @ [(k, v)]" using notin
    by (induction acc) auto
  have "distinct (map fst ((acc @ [(k, v)]) @ kvs))" using Cons.prems by (simp add: kv)
  then have "foldl (\<lambda>d (k, v). AList.update k v d) (acc @ [(k, v)]) kvs = (acc @ [(k, v)]) @ kvs"
    by (rule Cons.IH)
  then show ?case by (simp add: kv upd)
qed

lemma dict_of_distinct: "distinct (map fst kvs) \<Longrightarrow> dict_of kvs = kvs"
  using foldl_update_distinct [of "[]" kvs] by (simp add: dict_of_def)

lemma foldl_update_keys:
  "fst ` set (foldl (\<lambda>d (k, v). AList.update k v d) acc kvs) = fst ` set acc \<union> fst ` set kvs"
  by (induction kvs arbitrary: acc) (auto simp: dom_update split_beta)

lemma keys_dict_of: "set (keys (dict_of kvs)) = fst ` set kvs"
  using foldl_update_keys [of "[]" kvs] by (simp add: dict_of_def keys_def)

lemma dict_of_Nil_iff: "dict_of kvs = [] \<longleftrightarrow> kvs = []"
proof -
  have "set (keys (dict_of kvs)) = {} \<longleftrightarrow> fst ` set kvs = {}" by (simp add: keys_dict_of)
  then show ?thesis by (simp add: keys_def)
qed

lemma py_max_eq: "py_max xs = (if xs = [] then Inl ValueError else Inr (Max (set xs)))"
proof (cases xs)
  case Nil
  then show ?thesis by simp
next
  case (Cons x ys)
  have "Max (set (x # ys)) = fold max ys x" by (rule Max.set_eq_fold)
  with Cons show ?thesis by simp
qed

lemma World_maxcoords_eq:
  "World_maxcoords d =
     (if d = [] then Inl ValueError
      else Inr (Max (fst ` set (keys d)), Max (snd ` set (keys d))))"
  by (simp add: World_maxcoords_def py_max_eq keys_def split_beta image_image comp_def)

lemma World_init_DefaultDict:
  "d \<noteq> [] \<Longrightarrow> \<exists>mc. World_init (DefaultDict d) = Inr \<lparr>items = d, maxcoords = mc\<rparr>"
  by (simp add: World_init_def World_maxcoords_eq)

lemma World_next_fst:
  "fst (World_next w) = World_init (DefaultDict (dict_of (fst (next_items (items w) w))))"
  by (simp add: World_next_def split_beta)

lemma World_next_snd: "snd (World_next w) = snd (next_items (items w) w)"
  by (simp add: World_next_def split_beta)

lemma next_items_keys: "map fst (fst (next_items kvs w)) = map fst kvs"
proof (induction kvs arbitrary: w)
  case Nil
  show ?case by simp
next
  case (Cons kv kvs)
  obtain c s where kv: "kv = (c, s)" by (cases kv)
  show ?case by (simp add: kv split_beta Cons.IH)
qed

lemma World_next_nonempty:
  assumes "items G \<noteq> []"
  shows "\<exists>mc. fst (World_next G) =
            Inr \<lparr>items = dict_of (fst (next_items (items G) G)), maxcoords = mc\<rparr> \<and>
          dict_of (fst (next_items (items G) G)) \<noteq> []"
proof -
  let ?kvs = "fst (next_items (items G) G)"
  have "map fst ?kvs = map fst (items G)" by (rule next_items_keys)
  then have "?kvs \<noteq> []" using assms by auto
  then have ne: "dict_of ?kvs \<noteq> []" by (simp add: dict_of_Nil_iff)
  then show ?thesis using World_init_DefaultDict [of "dict_of ?kvs"] by (auto simp: World_next_fst)
qed

lemma tabletodict_Nil_iff: "World_tabletodict t = [] \<longleftrightarrow> (\<forall>row \<in> set t. row = [])"
proof -
  have "World_tabletodict t = [] \<longleftrightarrow> (\<forall>x < length t. t ! x = [])"
    by (auto simp: World_tabletodict_def dict_of_Nil_iff)
  also have "\<dots> \<longleftrightarrow> (\<forall>row \<in> set t. row = [])"
    by (simp add: all_set_conv_all_nth)
  finally show ?thesis .
qed

lemma World_init_Inr_iff:
  "World_init tbl = Inr G \<longleftrightarrow>
     (let d = (case tbl of DefaultDict d \<Rightarrow> d | Table t \<Rightarrow> World_tabletodict t)
      in d \<noteq> [] \<and> items G = d \<and> World_maxcoords d = Inr (maxcoords G))"
  by (cases G) (auto simp: World_init_def Let_def World_maxcoords_eq split: sum.splits)

lemma iter_items_grown: "grown_by_Void w (snd (iter_items cs w))"
proof (induction cs arbitrary: w)
  case Nil
  show ?case by (simp add: grown_by_Void_refl)
next
  case (Cons c cs)
  have "grown_by_Void w (snd (iter_items cs (snd (World_getitem c w))))"
    using getitem_grown Cons.IH by (rule grown_by_Void_trans)
  then show ?case by (simp add: split_beta)
qed

lemma iter_items_fst: "fst (iter_items cs w) = map (\<lambda>c. (c, state_at w c)) cs"
proof (induction cs arbitrary: w)
  case Nil
  show ?case by simp
next
  case (Cons c cs)
  have "state_at (snd (World_getitem c w)) = state_at w"
    using getitem_grown by (rule grown_by_Void_state_at)
  with Cons.IH [of "snd (World_getitem c w)"] show ?case
    by (simp add: split_beta getitem_fst)
qed

lemma any_ElecHead_grown: "grown_by_Void w (snd (any_ElecHead cs w))"
proof (induction cs arbitrary: w)
  case Nil
  show ?case by (simp add: grown_by_Void_refl)
next
  case (Cons c cs)
  have "grown_by_Void w (snd (any_ElecHead cs (snd (World_getitem c w))))"
    using getitem_grown Cons.IH by (rule grown_by_Void_trans)
  then show ?case by (simp add: split_beta getitem_grown)
qed

lemma any_ElecHead_fst: "fst (any_ElecHead cs w) \<longleftrightarrow> (\<exists>c \<in> set cs. state_at w c = ElecHead)"
proof (induction cs arbitrary: w)
  case Nil
  show ?case by simp
next
  case (Cons c cs)
  have "state_at (snd (World_getitem c w)) = state_at w"
    using getitem_grown by (rule grown_by_Void_state_at)
  with Cons.IH [of "snd (World_getitem c w)"] show ?case
    by (simp add: split_beta getitem_fst)
qed

lemma set_iter_coords:
  "set (iter_coords w) = {0..fst (maxcoords w)} \<times> {0..snd (maxcoords w)}"
  by (simp add: iter_coords_def split_beta)

text \<open>
  \<open>have_current\<close> reads the coordinates of \<open>[0..maxx] \<times> [0..maxy]\<close> and no other:
  it finds an \<open>ElecHead\<close> exactly when one is stored there. For a world whose keys all
  lie in that box, as the keys of a table do, that is any stored \<open>ElecHead\<close>.
\<close>

lemma have_current_scans_box:
  "fst (World_have_current w) \<longleftrightarrow>
     (\<exists>c \<in> {0..fst (maxcoords w)} \<times> {0..snd (maxcoords w)}. state_at w c = ElecHead)"
  by (simp only: World_have_current_def any_ElecHead_fst set_iter_coords)

lemma have_current_in_box:
  assumes "distinct (keys (items w))"
    and "set (keys (items w)) \<subseteq> {0..fst (maxcoords w)} \<times> {0..snd (maxcoords w)}"
  shows "fst (World_have_current w) \<longleftrightarrow> ElecHead \<in> snd ` set (items w)"
proof
  assume "fst (World_have_current w)"
  then obtain c where "state_at w c = ElecHead" unfolding have_current_scans_box by blast
  then have "map_of (items w) c = Some ElecHead"
    by (auto simp: state_at_def split: option.splits)
  then have "(c, ElecHead) \<in> set (items w)" by (rule map_of_SomeD)
  then show "ElecHead \<in> snd ` set (items w)" by force
next
  assume "ElecHead \<in> snd ` set (items w)"
  then obtain c where c: "(c, ElecHead) \<in> set (items w)" by force
  with assms(1) have "map_of (items w) c = Some ElecHead" by (simp add: keys_def)
  then have "state_at w c = ElecHead" by (simp add: state_at_def)
  moreover from c have "c \<in> set (keys (items w))" by (force simp: keys_def)
  with assms(2) have "c \<in> {0..fst (maxcoords w)} \<times> {0..snd (maxcoords w)}" by blast
  ultimately show "fst (World_have_current w)" unfolding have_current_scans_box by blast
qed

lemma wireclass_eq:
  "wireclass =
     [(9608, ElecTail), (35, Wire), (64, Wire), (37, Wire), (32, Void), (160, Void),
      (9618, ElecHead), (43, ElecHead), (63, ElecHead), (41, ElecHead), (62, ElecHead),
      (45, ElecTail), (46, ElecTail), (40, ElecTail), (60, ElecTail)]"
  by (simp add: wireclass_def dict_of_def CHARS_WIRE_def CHARS_VOID_def CHARS_HEAD_def
      CHARS_TAIL_def CHAR_WIRE_def CHAR_VOID_def CHAR_HEAD_def CHAR_TAIL_def)

text \<open>
  The keys of a dictionary are distinct. The constructor returns a world with distinct
  keys (from a table always, from a dictionary with distinct keys), so does
  \<open>World.next\<close>, and the keys of a world are still distinct after it has been read.
\<close>

lemma foldl_update_distinct_keys:
  "distinct (map fst acc) \<Longrightarrow>
   distinct (map fst (foldl (\<lambda>d (k, v). AList.update k v d) acc kvs))"
  by (induction kvs arbitrary: acc) (simp_all add: split_beta distinct_update)

lemma dict_of_distinct_keys: "distinct (keys (dict_of kvs))"
  using foldl_update_distinct_keys [of "[]" kvs] by (simp add: dict_of_def keys_def)

lemma World_init_distinct:
  assumes "World_init tbl = Inr G"
    and "\<And>d. tbl = DefaultDict d \<Longrightarrow> distinct (keys d)"
  shows "distinct (keys (items G))"
proof (cases tbl)
  case (Table t)
  with assms(1) have "items G = World_tabletodict t" by (simp add: World_init_Inr_iff Let_def)
  then show ?thesis by (simp add: World_tabletodict_def dict_of_distinct_keys)
next
  case (DefaultDict d)
  with assms(1) have "items G = d" by (simp add: World_init_Inr_iff Let_def)
  with assms(2) DefaultDict show ?thesis by simp
qed

lemma World_next_distinct:
  assumes "fst (World_next G) = Inr G'"
  shows "distinct (keys (items G'))"
proof -
  from assms have "items G' = dict_of (fst (next_items (items G) G))"
    by (simp add: World_next_fst World_init_Inr_iff Let_def)
  then show ?thesis by (simp add: dict_of_distinct_keys)
qed

lemma getitem_distinct:
  "distinct (keys (items w)) \<Longrightarrow> distinct (keys (items (snd (World_getitem k w))))"
  by (auto simp: World_getitem_def keys_def map_of_eq_None_iff split: option.splits)

lemma getitems_distinct:
  "distinct (keys (items w)) \<Longrightarrow> distinct (keys (items (snd (getitems ks w))))"
  by (induction ks arbitrary: w) (simp_all add: split_beta getitem_distinct)

lemma next_state_distinct:
  "distinct (keys (items w)) \<Longrightarrow>
   distinct (keys (items (snd (next_state s (World_neighbors c) w))))"
  by (cases s; cases c) (simp_all add: split_beta World_neighbors_def getitems_distinct)

lemma next_items_distinct:
  "distinct (keys (items w)) \<Longrightarrow> distinct (keys (items (snd (next_items kvs w))))"
proof (induction kvs arbitrary: w)
  case Nil
  then show ?case by simp
next
  case (Cons kv kvs)
  obtain c s where kv: "kv = (c, s)" by (cases kv)
  from Cons.prems have "distinct (keys (items (snd (next_state s (World_neighbors c) w))))"
    by (rule next_state_distinct)
  then have "distinct (keys (items (snd (next_items kvs (snd (next_state s (World_neighbors c) w))))))"
    by (rule Cons.IH)
  then show ?case by (simp add: kv split_beta)
qed

lemma iter_items_distinct:
  "distinct (keys (items w)) \<Longrightarrow> distinct (keys (items (snd (iter_items cs w))))"
  by (induction cs arbitrary: w) (simp_all add: split_beta getitem_distinct)

lemma any_ElecHead_distinct:
  "distinct (keys (items w)) \<Longrightarrow> distinct (keys (items (snd (any_ElecHead cs w))))"
  by (induction cs arbitrary: w) (simp_all add: split_beta getitem_distinct)

lemma reads_keep_distinct:
  assumes "distinct (keys (items w))"
  shows "distinct (keys (items (snd (World_next w))))"
    and "distinct (keys (items (snd (World_iter w))))"
    and "distinct (keys (items (snd (World_have_current w))))"
  using assms
  by (simp_all add: World_next_snd World_iter_def World_have_current_def
      next_items_distinct iter_items_distinct any_ElecHead_distinct)

text \<open>
  Where the reads store: \<open>world[k]\<close> leaves \<open>k\<close> a key, so a loop of reads leaves
  every coordinate it read a key and no other new one.
\<close>

lemma getitem_keys:
  "set (keys (items (snd (World_getitem k w)))) = insert k (set (keys (items w)))"
proof (cases "map_of (items w) k")
  case None
  then show ?thesis by (simp add: World_getitem_def keys_def)
next
  case (Some v)
  then have "(k, v) \<in> set (items w)" by (rule map_of_SomeD)
  then have "k \<in> set (keys (items w))" by (force simp: keys_def)
  with Some show ?thesis by (auto simp: World_getitem_def)
qed

lemma getitems_keys:
  "set (keys (items (snd (getitems ks w)))) = set (keys (items w)) \<union> set ks"
proof (induction ks arbitrary: w)
  case Nil
  show ?case by simp
next
  case (Cons k ks)
  show ?case by (simp add: split_beta Cons.IH getitem_keys)
qed

lemma neighbors_keys:
  "set (keys (items (snd (World_neighbors c w)))) =
     set (keys (items w)) \<union> (\<lambda>(i, j). (fst c + i, snd c + j)) ` set offsets"
  by (cases c) (simp add: World_neighbors_def getitems_keys)

lemma next_state_keys:
  "set (keys (items (snd (next_state s (World_neighbors c) w)))) =
     set (keys (items w)) \<union>
     (if s = Wire then (\<lambda>(i, j). (fst c + i, snd c + j)) ` set offsets else {})"
  by (cases s) (simp_all add: split_beta neighbors_keys)

lemma next_items_stores:
  "set (keys (items (snd (next_items kvs w)))) =
     set (keys (items w)) \<union>
     (\<Union>(c, s) \<in> set kvs.
        if s = Wire then (\<lambda>(i, j). (fst c + i, snd c + j)) ` set offsets else {})"
proof (induction kvs arbitrary: w)
  case Nil
  show ?case by simp
next
  case (Cons kv kvs)
  obtain c s where kv: "kv = (c, s)" by (cases kv)
  show ?case
    by (simp add: kv split_beta Cons.IH next_state_keys Un_assoc del: next_state.simps)
qed

lemma iter_items_keys:
  "set (keys (items (snd (iter_items cs w)))) = set (keys (items w)) \<union> set cs"
proof (induction cs arbitrary: w)
  case Nil
  show ?case by simp
next
  case (Cons c cs)
  show ?case by (simp add: split_beta Cons.IH getitem_keys)
qed

lemma ElecHead_stored:
  assumes "state_at w c = ElecHead"
  shows "c \<in> set (keys (items w))"
proof -
  from assms have "map_of (items w) c = Some ElecHead"
    by (auto simp: state_at_def split: option.splits)
  then have "(c, ElecHead) \<in> set (items w)" by (rule map_of_SomeD)
  then show ?thesis by (force simp: keys_def)
qed

lemma any_ElecHead_keys:
  "set (keys (items (snd (any_ElecHead cs w)))) =
     set (keys (items w)) \<union> set (takeWhile (\<lambda>c. state_at w c \<noteq> ElecHead) cs)"
proof (induction cs arbitrary: w)
  case Nil
  show ?case by simp
next
  case (Cons c cs)
  have st: "state_at (snd (World_getitem c w)) = state_at w"
    using getitem_grown by (rule grown_by_Void_state_at)
  show ?case
  proof (cases "state_at w c = ElecHead")
    case True
    then have "c \<in> set (keys (items w))" by (rule ElecHead_stored)
    with True show ?thesis by (auto simp: split_beta getitem_fst getitem_keys)
  next
    case False
    then show ?thesis by (simp add: split_beta getitem_fst getitem_keys Cons.IH st)
  qed
qed

section \<open>The transition rule\<close>

text \<open>
  C2. \<open>next_state\<close> is total and depends only on the state and on what the iterable of
  neighbours yields: \<open>Void\<close> stays \<open>Void\<close>, \<open>ElecHead\<close> becomes \<open>ElecTail\<close> and
  \<open>ElecTail\<close> becomes \<open>Wire\<close> whatever the neighbours are; \<open>Wire\<close> becomes
  \<open>ElecHead\<close> exactly when one or two of the yielded states are \<open>ElecHead\<close> and stays
  \<open>Wire\<close> otherwise. Only \<open>Wire\<close> runs the iterable.
\<close>

theorem C2_next_state_rule:
  "next_state Void g s = (Void, s) \<and>
   next_state ElecHead g s = (ElecTail, s) \<and>
   next_state ElecTail g s = (Wire, s) \<and>
   fst (next_state Wire g s) =
     (if count_list (fst (g s)) ElecHead \<in> {1, 2} then ElecHead else Wire) \<and>
   snd (next_state Wire g s) = snd (g s)"
  by (simp add: split_beta count_list_map_eq)

section \<open>Neighbours\<close>

text \<open>
  C8. Consumed on a world \<open>G\<close>, \<open>neighbors\<close> of \<open>(x, y)\<close> yields eight states in a
  fixed order, one for each offset of \<open>{-1, 0, 1}\<^sup>2\<close> other than \<open>(0, 0)\<close>: the state
  stored in \<open>G\<close> at \<open>(x + dx, y + dy)\<close>, and \<open>Void\<close> where none is stored.
\<close>

theorem C8_neighbors:
  "fst (World_neighbors (x, y) G) =
     map (\<lambda>(dx, dy). state_at G (x + dx, y + dy))
         [(-1, -1), (-1, 0), (-1, 1), (0, -1), (0, 1), (1, -1), (1, 0), (1, 1)] \<and>
   length (fst (World_neighbors (x, y) G)) = 8 \<and>
   distinct offsets \<and>
   set offsets = {-1, 0, 1} \<times> {-1, 0, 1} - {(0, 0)}"
proof -
  have "set offsets = {-1, 0, 1} \<times> {-1, 0, 1} - {(0, 0)}"
    unfolding offsets_eq by auto
  moreover have "distinct offsets" unfolding offsets_eq by simp
  ultimately show ?thesis by (simp add: neighbors_fst) (simp add: offsets_eq)
qed

text \<open>The neighbours of \<open>(0, 1)\<close> in the strip \<open>Wire, ElecHead, ElecTail\<close>.\<close>

theorem C8_neighbors_witness:
  "fst (World_neighbors (0, 1) strip_world) = [Void, Void, Void, Wire, ElecTail, Void, Void, Void] \<and>
   length (fst (World_neighbors (0, 1) strip_world)) = 8"
  using C8_neighbors [of 0 1 strip_world] by (simp add: state_at_def strip_world_def)

section \<open>The bounding box and the constructor\<close>

text \<open>
  C5, as stated, fails in its second half: on no keys \<open>__maxcoords\<close> does not fail with
  an EmptyGridError but with the \<open>ValueError\<close> that \<open>max\<close> raises on an empty
  sequence.
\<close>

theorem C5_counterexample:
  "World_maxcoords [] = Inl ValueError \<and> World_maxcoords [] \<noteq> Inl EmptyGridError"
  by (simp add: World_maxcoords_def keys_def)

text \<open>
  C5, amended. \<open>__maxcoords\<close> returns the largest x and the largest y among the stored
  keys when there is a key, and fails with \<open>ValueError\<close> when there is none.
\<close>

theorem C5_maxcoords:
  "World_maxcoords d =
     (if keys d = [] then Inl ValueError
      else Inr (Max (fst ` set (keys d)), Max (snd ` set (keys d))))"
  by (simp add: World_maxcoords_eq keys_def)

text \<open>
  C10. The constructor computes \<open>maxcoords\<close> itself: on a table without a cell, and on
  an empty dictionary, it raises and no world is returned. A world it returns has a key
  and holds the largest coordinates of its keys, and \<open>World.next\<close> of it returns a
  world that has a key again.
\<close>

theorem C10_construction_nonempty:
  "((\<forall>row \<in> set t. row = []) \<longrightarrow> World_init (Table t) = Inl ValueError) \<and>
   World_init (DefaultDict []) = Inl ValueError \<and>
   (World_init tbl = Inr G \<longrightarrow>
      items G \<noteq> [] \<and> World_maxcoords (items G) = Inr (maxcoords G) \<and>
      (\<exists>G'. fst (World_next G) = Inr G' \<and> items G' \<noteq> [] \<and>
             World_maxcoords (items G') = Inr (maxcoords G')))"
proof (intro conjI impI)
  assume "\<forall>row \<in> set t. row = []"
  then have "World_tabletodict t = []" by (simp add: tabletodict_Nil_iff)
  then show "World_init (Table t) = Inl ValueError"
    by (simp add: World_init_def World_maxcoords_eq)
next
  show "World_init (DefaultDict []) = Inl ValueError"
    by (simp add: World_init_def World_maxcoords_eq)
next
  assume a: "World_init tbl = Inr G"
  then show ne: "items G \<noteq> []" by (auto simp: World_init_Inr_iff Let_def)
  from a show "World_maxcoords (items G) = Inr (maxcoords G)"
    by (auto simp: World_init_Inr_iff Let_def)
  obtain G' where s: "fst (World_next G) = Inr G'"
    using World_next_nonempty [OF ne] by auto
  then have "World_init (DefaultDict (dict_of (fst (next_items (items G) G)))) = Inr G'"
    by (simp add: World_next_fst)
  then have "items G' \<noteq> [] \<and> World_maxcoords (items G') = Inr (maxcoords G')"
    by (auto simp: World_init_Inr_iff Let_def)
  with s show "\<exists>G'. fst (World_next G) = Inr G' \<and> items G' \<noteq> [] \<and>
             World_maxcoords (items G') = Inr (maxcoords G')" by blast
qed

text \<open>A table of two empty rows, and the table \<open>((Wire,), (Wire, Wire))\<close>.\<close>

theorem C10_construction_nonempty_witness:
  "World_init (Table [[], []]) = Inl ValueError \<and>
   World_init (Table [[Wire], [Wire, Wire]]) = Inr ragged_world \<and>
   items ragged_world \<noteq> [] \<and>
   World_maxcoords (items ragged_world) = Inr (1, 1) \<and>
   (\<exists>G'. fst (World_next ragged_world) = Inr G' \<and> items G' \<noteq> [])"
proof -
  have i: "World_init (Table [[Wire], [Wire, Wire]]) = Inr ragged_world" by code_simp
  have e: "\<forall>row \<in> set [[], []::State list]. row = []" by simp
  have m: "maxcoords ragged_world = (1, 1)" by (simp add: ragged_world_def)
  from C10_construction_nonempty [of "[[], []]" "Table [[Wire], [Wire, Wire]]" ragged_world] i e m
  show ?thesis by auto
qed

section \<open>One step\<close>

text \<open>
  C1. For a world \<open>G\<close> with a key, \<open>World.next\<close> returns a world with the keys of
  \<open>G\<close>, in their order, that stores at each key \<open>c\<close> with state \<open>s\<close> the result of
  \<open>s.next_state\<close> on the neighbours of \<open>c\<close> read in \<open>G\<close> as it was when the
  step began: neither the entries of the new dictionary nor the \<open>Void\<close> entries that
  earlier reads of the same step stored in \<open>G\<close> change what a cell is computed from.
\<close>

theorem C1_next_from_snapshot:
  assumes "distinct (keys (items G))" and "items G \<noteq> []"
  shows "\<exists>G'. fst (World_next G) = Inr G' \<and>
           keys (items G') = keys (items G) \<and>
           items G' = map (\<lambda>(c, s). (c, fst (next_state s (World_neighbors c) G))) (items G)"
proof -
  let ?kvs = "fst (next_items (items G) G)"
  have kvs: "?kvs = map (\<lambda>(c, s). (c, fst (next_state s (World_neighbors c) G))) (items G)"
    by (rule next_items_fst) simp
  have ks: "map fst ?kvs = map fst (items G)" by (rule next_items_keys)
  with assms(1) have "dict_of ?kvs = ?kvs" by (simp add: dict_of_distinct keys_def)
  then obtain mc where "fst (World_next G) = Inr \<lparr>items = ?kvs, maxcoords = mc\<rparr>"
    using World_next_nonempty [OF assms(2)] by auto
  with kvs ks show ?thesis by (simp add: keys_def)
qed

text \<open>A 2 by 2 world with one head: both wires see it.\<close>

theorem C1_next_from_snapshot_witness:
  "World_init (Table [[ElecHead, Wire], [Wire, ElecTail]]) = Inr square_world \<and>
   distinct (keys (items square_world)) \<and> items square_world \<noteq> [] \<and>
   (\<exists>G'. fst (World_next square_world) = Inr G' \<and>
          items G' = [((0, 0), ElecTail), ((0, 1), ElecHead), ((1, 0), ElecHead), ((1, 1), Wire)])"
proof -
  have c: "World_init (Table [[ElecHead, Wire], [Wire, ElecTail]]) = Inr square_world"
    by code_simp
  have d: "distinct (keys (items square_world))" by (simp add: square_world_def keys_def)
  have n: "items square_world \<noteq> []" by (simp add: square_world_def)
  have e: "map (\<lambda>(c, s). (c, fst (next_state s (World_neighbors c) square_world))) (items square_world)
           = [((0, 0), ElecTail), ((0, 1), ElecHead), ((1, 0), ElecHead), ((1, 1), Wire)]"
    by code_simp
  from C1_next_from_snapshot [OF d n] e c d n show ?thesis by auto
qed


text \<open>
  C6. \<open>World.next\<close> of a world with a key returns a world whose keys are keys of the
  world it was called on: a step stores no coordinate in the new world that was not
  stored before.
\<close>

theorem C6_next_keys_subset:
  assumes "items G \<noteq> []"
  shows "\<exists>G'. fst (World_next G) = Inr G' \<and> set (keys (items G')) \<subseteq> set (keys (items G))"
proof -
  let ?kvs = "fst (next_items (items G) G)"
  have ks: "map fst ?kvs = map fst (items G)" by (rule next_items_keys)
  obtain mc where "fst (World_next G) = Inr \<lparr>items = dict_of ?kvs, maxcoords = mc\<rparr>"
    using World_next_nonempty [OF assms] by auto
  moreover have "set (keys (dict_of ?kvs)) = set (keys (items G))"
  proof -
    have "set (keys (dict_of ?kvs)) = set (map fst ?kvs)" by (simp add: keys_dict_of)
    with ks show ?thesis by (simp add: keys_def)
  qed
  ultimately show ?thesis by simp
qed

text \<open>The keys of the step of the ragged table stay among its three keys.\<close>

theorem C6_next_keys_subset_witness:
  "items ragged_world \<noteq> [] \<and>
   (\<exists>G'. fst (World_next ragged_world) = Inr G' \<and>
          set (keys (items G')) \<subseteq> {(0, 0), (1, 0), (1, 1)})"
proof -
  have n: "items ragged_world \<noteq> []" by (simp add: ragged_world_def)
  have k: "set (keys (items ragged_world)) = {(0, 0), (1, 0), (1, 1)}"
    by (simp add: ragged_world_def keys_def)
  from C6_next_keys_subset [OF n] k n show ?thesis by simp
qed

text \<open>
  C9. The world of the table \<open>((Wire, ElecHead, ElecTail),)\<close>, that is
  \<open>{(0,0): Wire, (0,1): ElecHead, (0,2): ElecTail}\<close>, steps to
  \<open>{(0,0): ElecHead, (0,1): ElecTail, (0,2): Wire}\<close>.
\<close>

theorem C9_strip_scenario:
  "World_init (Table [[Wire, ElecHead, ElecTail]]) = Inr strip_world \<and>
   fst (World_next strip_world) =
     Inr \<lparr>items = [((0, 0), ElecHead), ((0, 1), ElecTail), ((0, 2), Wire)], maxcoords = (0, 2)\<rparr>"
  by code_simp

section \<open>What the reads leave behind\<close>

text \<open>
  C3, as stated, fails: \<open>World.next\<close>, the consumed \<open>__iter__\<close> and \<open>have_current\<close>
  store new keys in the world they read. On the world of the table
  \<open>((Wire,), (Wire, Wire))\<close> a step stores the twelve missing neighbours of the three
  wires, and the other two store \<open>(0, 1)\<close>.
\<close>

theorem C3_counterexample:
  "World_init (Table [[Wire], [Wire, Wire]]) = Inr ragged_world \<and>
   keys (items ragged_world) = [(0, 0), (1, 0), (1, 1)] \<and>
   keys (items (snd (World_next ragged_world))) =
     [(0, 0), (1, 0), (1, 1), (-1, -1), (-1, 0), (-1, 1), (0, -1), (0, 1), (1, -1),
      (2, -1), (2, 0), (2, 1), (0, 2), (1, 2), (2, 2)] \<and>
   keys (items (snd (World_iter ragged_world))) = [(0, 0), (1, 0), (1, 1), (0, 1)] \<and>
   keys (items (snd (World_have_current ragged_world))) = [(0, 0), (1, 0), (1, 1), (0, 1)] \<and>
   snd (World_next ragged_world) \<noteq> ragged_world \<and>
   snd (World_iter ragged_world) \<noteq> ragged_world \<and>
   snd (World_have_current ragged_world) \<noteq> ragged_world"
proof -
  have k: "keys (items ragged_world) = [(0, 0), (1, 0), (1, 1)]"
    by (simp add: ragged_world_def keys_def)
  have n: "keys (items (snd (World_next ragged_world))) =
     [(0, 0), (1, 0), (1, 1), (-1, -1), (-1, 0), (-1, 1), (0, -1), (0, 1), (1, -1),
      (2, -1), (2, 0), (2, 1), (0, 2), (1, 2), (2, 2)]" by code_simp
  have i: "keys (items (snd (World_iter ragged_world))) = [(0, 0), (1, 0), (1, 1), (0, 1)]"
    by code_simp
  have h: "keys (items (snd (World_have_current ragged_world))) = [(0, 0), (1, 0), (1, 1), (0, 1)]"
    by code_simp
  have c: "World_init (Table [[Wire], [Wire, Wire]]) = Inr ragged_world" by code_simp
  have "snd (World_next ragged_world) \<noteq> ragged_world" using k n by force
  moreover have "snd (World_iter ragged_world) \<noteq> ragged_world" using k i by force
  moreover have "snd (World_have_current ragged_world) \<noteq> ragged_world" using k h by force
  ultimately show ?thesis using k n i h c by blast
qed


text \<open>
  C3, amended. \<open>World.next\<close>, the consumed \<open>__iter__\<close> and \<open>have_current\<close> keep
  every entry of the world they read, in place and with its state, and keep
  \<open>maxcoords\<close>; what they add are entries in state \<open>Void\<close> behind the old ones. So the
  state read at every coordinate, \<open>Void\<close> where none is stored, is the same after the
  call as before. The keys afterwards are the keys before and, for a step, the eight
  neighbours of every stored \<open>Wire\<close>; for the consumed \<open>__iter__\<close>, every coordinate
  of \<open>[0..maxx] \<times> [0..maxy]\<close>; for \<open>have_current\<close>, the coordinates of that box
  that come before the first \<open>ElecHead\<close> in the order of \<open>__iter__\<close>.
\<close>

theorem C3_reads_only_store_Void:
  "grown_by_Void G (snd (World_next G)) \<and>
   grown_by_Void G (snd (World_iter G)) \<and>
   grown_by_Void G (snd (World_have_current G)) \<and>
   state_at (snd (World_next G)) = state_at G \<and>
   state_at (snd (World_iter G)) = state_at G \<and>
   state_at (snd (World_have_current G)) = state_at G \<and>
   set (keys (items (snd (World_next G)))) =
     set (keys (items G)) \<union>
     (\<Union>(c, s) \<in> set (items G).
        if s = Wire then (\<lambda>(i, j). (fst c + i, snd c + j)) ` set offsets else {}) \<and>
   set (keys (items (snd (World_iter G)))) =
     set (keys (items G)) \<union> {0..fst (maxcoords G)} \<times> {0..snd (maxcoords G)} \<and>
   set (keys (items (snd (World_have_current G)))) =
     set (keys (items G)) \<union>
     set (takeWhile (\<lambda>c. state_at G c \<noteq> ElecHead) (iter_coords G))"
proof -
  have 1: "grown_by_Void G (snd (World_next G))"
    by (simp add: World_next_snd next_items_grown)
  have 2: "grown_by_Void G (snd (World_iter G))"
    by (simp add: World_iter_def iter_items_grown)
  have 3: "grown_by_Void G (snd (World_have_current G))"
    by (simp add: World_have_current_def any_ElecHead_grown)
  have 4: "set (keys (items (snd (World_next G)))) =
     set (keys (items G)) \<union>
     (\<Union>(c, s) \<in> set (items G).
        if s = Wire then (\<lambda>(i, j). (fst c + i, snd c + j)) ` set offsets else {})"
    unfolding World_next_snd by (rule next_items_stores)
  have 5: "set (keys (items (snd (World_iter G)))) =
     set (keys (items G)) \<union> {0..fst (maxcoords G)} \<times> {0..snd (maxcoords G)}"
    by (simp only: World_iter_def iter_items_keys set_iter_coords)
  have 6: "set (keys (items (snd (World_have_current G)))) =
     set (keys (items G)) \<union>
     set (takeWhile (\<lambda>c. state_at G c \<noteq> ElecHead) (iter_coords G))"
    unfolding World_have_current_def by (rule any_ElecHead_keys)
  from 1 2 3 have "state_at (snd (World_next G)) = state_at G \<and>
   state_at (snd (World_iter G)) = state_at G \<and>
   state_at (snd (World_have_current G)) = state_at G"
    by (simp add: grown_by_Void_state_at)
  with 1 2 3 4 5 6 show ?thesis by blast
qed

text \<open>
  The ragged world again: a step stores the twelve missing neighbours of its wires,
  iterating it stores \<open>(0, 1)\<close>. With a head at \<open>(0, 0)\<close> instead of the first wire,
  \<open>have_current\<close> stops there and stores nothing, while iterating still stores
  \<open>(0, 1)\<close>.
\<close>

theorem C3_reads_only_store_Void_witness:
  "grown_by_Void ragged_world (snd (World_next ragged_world)) \<and>
   items (snd (World_iter ragged_world)) = items ragged_world @ [((0, 1), Void)] \<and>
   state_at (snd (World_iter ragged_world)) (0, 1) = state_at ragged_world (0, 1) \<and>
   set (keys (items (snd (World_next ragged_world)))) =
     {(0, 0), (1, 0), (1, 1)} \<union>
     {(-1, -1), (-1, 0), (-1, 1), (0, -1), (0, 1), (1, -1), (2, -1), (2, 0), (2, 1),
      (0, 2), (1, 2), (2, 2)} \<and>
   set (keys (items (snd (World_iter ragged_world)))) = {(0, 0), (1, 0), (1, 1)} \<union> {(0, 1)} \<and>
   set (keys (items (snd (World_have_current ragged_world)))) = {(0, 0), (1, 0), (1, 1)} \<union> {(0, 1)} \<and>
   World_init (Table [[ElecHead], [Wire, Wire]]) = Inr lit_world \<and>
   takeWhile (\<lambda>c. state_at lit_world c \<noteq> ElecHead) (iter_coords lit_world) = [] \<and>
   set (keys (items (snd (World_have_current lit_world)))) = set (keys (items lit_world)) \<and>
   set (keys (items (snd (World_iter lit_world)))) = set (keys (items lit_world)) \<union> {(0, 1)}"
proof -
  have a: "items (snd (World_iter ragged_world)) = items ragged_world @ [((0, 1), Void)]"
    by code_simp
  have b: "keys (items (snd (World_next ragged_world))) =
     [(0, 0), (1, 0), (1, 1), (-1, -1), (-1, 0), (-1, 1), (0, -1), (0, 1), (1, -1),
      (2, -1), (2, 0), (2, 1), (0, 2), (1, 2), (2, 2)]" by code_simp
  have c: "keys (items (snd (World_have_current ragged_world))) = [(0, 0), (1, 0), (1, 1), (0, 1)]"
    by code_simp
  have d: "World_init (Table [[ElecHead], [Wire, Wire]]) = Inr lit_world" by code_simp
  have e: "takeWhile (\<lambda>c. state_at lit_world c \<noteq> ElecHead) (iter_coords lit_world) = []"
    by code_simp
  have f: "keys (items (snd (World_iter lit_world))) = [(0, 0), (1, 0), (1, 1), (0, 1)]"
    by code_simp
  have g: "keys (items lit_world) = [(0, 0), (1, 0), (1, 1)]"
    by (simp add: lit_world_def keys_def)
  have h: "keys (items ragged_world) = [(0, 0), (1, 0), (1, 1)]"
    by (simp add: ragged_world_def keys_def)
  have l: "set (keys (items (snd (World_have_current lit_world)))) = set (keys (items lit_world))"
    using C3_reads_only_store_Void [of lit_world] e by simp
  have r: "grown_by_Void ragged_world (snd (World_next ragged_world))"
    using C3_reads_only_store_Void [of ragged_world] by simp
  have s: "state_at (snd (World_iter ragged_world)) (0, 1) = state_at ragged_world (0, 1)"
    using C3_reads_only_store_Void [of ragged_world] by simp
  have b': "set (keys (items (snd (World_next ragged_world)))) =
     {(0, 0), (1, 0), (1, 1)} \<union>
     {(-1, -1), (-1, 0), (-1, 1), (0, -1), (0, 1), (1, -1), (2, -1), (2, 0), (2, 1),
      (0, 2), (1, 2), (2, 2)}" unfolding b by auto
  have a': "set (keys (items (snd (World_iter ragged_world)))) = {(0, 0), (1, 0), (1, 1)} \<union> {(0, 1)}"
    unfolding a keys_def using h by (auto simp: keys_def)
  have c': "set (keys (items (snd (World_have_current ragged_world)))) = {(0, 0), (1, 0), (1, 1)} \<union> {(0, 1)}"
    unfolding c by auto
  have f': "set (keys (items (snd (World_iter lit_world)))) = set (keys (items lit_world)) \<union> {(0, 1)}"
    unfolding f g by auto
  from a r s b' a' c' d e l f' show ?thesis by blast
qed

section \<open>Current\<close>

text \<open>
  C7 fails on the code: \<open>have_current\<close> is documented as true iff any entry of the world
  is an \<open>ElecHead\<close>, but it looks only at \<open>[0..maxx] \<times> [0..maxy]\<close>. The world built
  from the dictionary \<open>{(-1, 0): ElecHead}\<close> stores a head and has no current.
\<close>

theorem C7_have_current_misses_head:
  "World_init (DefaultDict [((-1, 0), ElecHead)]) = Inr offgrid_world \<and>
   ElecHead \<in> snd ` set (items offgrid_world) \<and>
   fst (World_have_current offgrid_world) = False"
  by code_simp

section \<open>The loader\<close>

text \<open>
  C4 fails on the code: FULL BLOCK is the first letter of \<open>CHARS_WIRE\<close> and, through
  \<open>CHAR_TAIL = CHAR_WIRE\<close>, of \<open>CHARS_TAIL\<close>, which \<open>wireclass\<close> stores last. The
  line of a full block and \<open>#\<close> is read as \<open>ElecTail\<close>, \<open>Wire\<close>.
\<close>

theorem C4_full_block_read_as_ElecTail:
  "map_of wireclass 9608 = Some ElecTail \<and>
   map_of wireclass 35 = Some Wire \<and>
   World_read [CHAR_WIRE @ [35, 10]] =
     Inr \<lparr>items = [((0, 0), ElecTail), ((0, 1), Wire)], maxcoords = (0, 1)\<rparr>"
  by (simp add: wireclass_eq World_read_def CHAR_WIRE_def List.map_filter_simps World_init_def
      World_tabletodict_def dict_of_def World_maxcoords_def keys_def upt_rec)

end
